theory Spec2Isabelle
  imports Main "HOL-Library.Word"
begin

section \<open>Domain types (internal/model/model.go)\<close>

text \<open>
  Go strings are byte sequences; they are modelled as \<open>string\<close>, whose elements are
  8-bit characters, so \<open>length\<close> is Go's \<open>len\<close>. A \<open>time.Time\<close> is an instant, given as
  nanoseconds since the Unix epoch. A timestamp column of the database holds text in
  the layout \<open>2006-01-02T15:04:05Z\<close>; it is modelled by the instant that text denotes,
  in whole seconds since the Unix epoch.
\<close>

type_synonym Time = int
type_synonym Seconds = int

type_synonym FilterKind = string

definition FilterInclude :: FilterKind where "FilterInclude = ''include''"
definition FilterExclude :: FilterKind where "FilterExclude = ''exclude''"
definition FilterIncludeRe :: FilterKind where "FilterIncludeRe = ''include_re''"
definition FilterExcludeRe :: FilterKind where "FilterExcludeRe = ''exclude_re''"

type_synonym FilterScope = string

definition ScopeTitle :: FilterScope where "ScopeTitle = ''title''"
definition ScopeContent :: FilterScope where "ScopeContent = ''content''"
definition ScopeAll :: FilterScope where "ScopeAll = ''all''"

record Feed =
  ID :: int
  ChatID :: int
  Name :: string
  URL :: string
  IntervalMinutes :: int
  IsActive :: bool
  LastCheckAt :: "Time option"
  CreatedAt :: Time

record Filter =
  filter_ID :: int
  filter_FeedID :: int
  Kind :: FilterKind
  Scope :: FilterScope
  Value :: string
  filter_CreatedAt :: Time

section \<open>Library functions the code calls\<close>

text \<open>
  The Go standard library is not part of the repository. The three functions whose
  results the code depends on are parameters of the model:
  \<^item> \<open>ToLower\<close> is \<open>strings.ToLower\<close>;
  \<^item> \<open>regexp_Compile p\<close> is \<open>regexp.Compile(p)\<close>: \<open>None\<close> when the pattern does not
    compile, otherwise the compiled expression's \<open>MatchString\<close>;
  \<^item> \<open>sha256_Sum256\<close> is \<open>sha256.Sum256\<close>, the digest as a list of bytes.
\<close>

record stdlib =
  ToLower :: "string \<Rightarrow> string"
  regexp_Compile :: "string \<Rightarrow> (string \<Rightarrow> bool) option"
  sha256_Sum256 :: "string \<Rightarrow> 8 word list"

text \<open>\<open>strings.Contains(s, substr)\<close>: \<open>substr\<close> occurs in \<open>s\<close> as a contiguous block.\<close>

fun Contains :: "string \<Rightarrow> string \<Rightarrow> bool" where
  "Contains [] substr = (substr = [])"
| "Contains (c # s) substr = (take (length substr) (c # s) = substr \<or> Contains s substr)"

section \<open>The matching engine (internal/filter/engine.go)\<close>

record FeedItem =
  fi_Title :: string
  fi_Description :: string

definition textForScope :: "stdlib \<Rightarrow> FeedItem \<Rightarrow> FilterScope \<Rightarrow> string" where
  "textForScope L item scope =
     (if scope = ScopeTitle then ToLower L (fi_Title item)
      else if scope = ScopeContent then ToLower L (fi_Description item)
      else ToLower L (fi_Title item @ '' '' @ fi_Description item))"

definition matchesFilter :: "stdlib \<Rightarrow> FeedItem \<Rightarrow> Filter \<Rightarrow> bool" where
  "matchesFilter L item f =
     (let text = textForScope L item (Scope f) in
      if Kind f = FilterInclude \<or> Kind f = FilterExclude then
        Contains text (ToLower L (Value f))
      else if Kind f = FilterIncludeRe \<or> Kind f = FilterExcludeRe then
        (case regexp_Compile L (''(?i)'' @ Value f) of
           None \<Rightarrow> False
         | Some re \<Rightarrow> re text)
      else False)"

text \<open>
  The loop of \<open>Match\<close> over the filters, with its two flags as arguments. An exclude
  filter that matches returns from the function at once.
\<close>

fun Match_loop :: "stdlib \<Rightarrow> FeedItem \<Rightarrow> Filter list \<Rightarrow> bool \<Rightarrow> bool \<Rightarrow> bool" where
  "Match_loop L item [] hasIncludes anyIncludeMatched =
     (if hasIncludes \<and> \<not> anyIncludeMatched then False else True)"
| "Match_loop L item (f # fs) hasIncludes anyIncludeMatched =
     (if Kind f = FilterInclude \<or> Kind f = FilterIncludeRe then
        Match_loop L item fs True
          (if matchesFilter L item f then True else anyIncludeMatched)
      else if Kind f = FilterExclude \<or> Kind f = FilterExcludeRe then
        (if matchesFilter L item f then False
         else Match_loop L item fs hasIncludes anyIncludeMatched)
      else Match_loop L item fs hasIncludes anyIncludeMatched)"

definition Match :: "stdlib \<Rightarrow> FeedItem \<Rightarrow> Filter list \<Rightarrow> bool" where
  "Match L item filters =
     (if length filters = 0 then True else Match_loop L item filters False False)"

definition ValidateRegex :: "stdlib \<Rightarrow> string \<Rightarrow> string option" where
  "ValidateRegex L pattern =
     (case regexp_Compile L (''(?i)'' @ pattern) of
        None \<Rightarrow> Some ''invalid regex''
      | Some re \<Rightarrow> None)"

subsection \<open>The composition law as the specification words it\<close>

definition is_include :: "Filter \<Rightarrow> bool" where
  "is_include f \<longleftrightarrow> Kind f = FilterInclude \<or> Kind f = FilterIncludeRe"

definition is_exclude :: "Filter \<Rightarrow> bool" where
  "is_exclude f \<longleftrightarrow> Kind f = FilterExclude \<or> Kind f = FilterExcludeRe"

definition noIncludesOrAnyIncludeMatches :: "stdlib \<Rightarrow> FeedItem \<Rightarrow> Filter list \<Rightarrow> bool" where
  "noIncludesOrAnyIncludeMatches L item filters \<longleftrightarrow>
     list_all (\<lambda>f. \<not> is_include f) filters
     \<or> list_ex (\<lambda>f. is_include f \<and> matchesFilter L item f) filters"

definition noExcludeMatches :: "stdlib \<Rightarrow> FeedItem \<Rightarrow> Filter list \<Rightarrow> bool" where
  "noExcludeMatches L item filters \<longleftrightarrow>
     \<not> list_ex (\<lambda>f. is_exclude f \<and> matchesFilter L item f) filters"

definition known_kind :: "Filter \<Rightarrow> bool" where
  "known_kind f \<longleftrightarrow> Kind f \<in> {FilterInclude, FilterExclude, FilterIncludeRe, FilterExcludeRe}"

section \<open>Fetching and normalising (internal/fetcher/fetcher.go)\<close>

text \<open>The fields of \<open>gofeed.Item\<close> and \<open>gofeed.Feed\<close> that the code reads.\<close>

record Item =
  Title :: string
  Description :: string
  Link :: string
  GUID :: string

record gofeed_Feed =
  gf_Title :: string
  Items :: "Item list"

record MatchedItem =
  mi_Title :: string
  mi_Description :: string
  mi_Link :: string
  mi_GUID :: string

record Request =
  Method :: string
  req_URL :: string
  Header :: "(string \<times> string) list"

text \<open>
  A response: its status code, the bytes its body yields, and the error with which
  reading the body ends after those bytes, if it does not end normally.
\<close>

record Response =
  StatusCode :: int
  Body :: string
  Body_err :: "string option"

text \<open>
  What is outside the fetcher: \<open>NewRequest_err url\<close> is the error of
  \<open>http.NewRequestWithContext\<close> for that URL, if any; \<open>Do\<close> is the \<open>HTTPClient\<close> the
  fetcher was built with; \<open>ParseString\<close> is the gofeed parser.
\<close>

record HTTPenv =
  NewRequest_err :: "string \<Rightarrow> string option"
  Do :: "Request \<Rightarrow> string + Response"
  ParseString :: "string \<Rightarrow> string + gofeed_Feed"

datatype fetch_error =
    CreateRequest string
  | HttpGet string
  | UnexpectedStatus int
  | ReadBody string
  | ParseFeed string

text \<open>\<open>io.ReadAll(io.LimitReader(resp.Body, n))\<close>: at most \<open>n\<close> bytes are read.\<close>

definition ReadAll_LimitReader :: "Response \<Rightarrow> nat \<Rightarrow> string + string" where
  "ReadAll_LimitReader resp n =
     (if n \<le> length (Body resp) then Inr (take n (Body resp))
      else case Body_err resp of Some e \<Rightarrow> Inl e | None \<Rightarrow> Inr (Body resp))"

definition StatusOK :: int where "StatusOK = 200"

definition Fetch :: "HTTPenv \<Rightarrow> string \<Rightarrow> fetch_error + gofeed_Feed" where
  "Fetch W url' =
     (case NewRequest_err W url' of
        Some e \<Rightarrow> Inl (CreateRequest e)
      | None \<Rightarrow>
          let req = \<lparr> Method = ''GET'', req_URL = url',
                      Header = [(''User-Agent'', ''RSSNotifyBot/1.0'')] \<rparr> in
          (case Do W req of
             Inl e \<Rightarrow> Inl (HttpGet e)
           | Inr resp \<Rightarrow>
               if StatusCode resp \<noteq> StatusOK then Inl (UnexpectedStatus (StatusCode resp))
               else (case ReadAll_LimitReader resp (5 * 1024 * 1024) of
                       Inl e \<Rightarrow> Inl (ReadBody e)
                     | Inr body \<Rightarrow>
                         (case ParseString W body of
                            Inl e \<Rightarrow> Inl (ParseFeed e)
                          | Inr feed \<Rightarrow> Inr feed))))"

text \<open>\<open>fmt.Sprintf("%x", bytes)\<close>: two lowercase hexadecimal digits for each byte.\<close>

definition hex_digit :: "nat \<Rightarrow> char" where
  "hex_digit n = ''0123456789abcdef'' ! n"

definition Sprintf_x :: "8 word list \<Rightarrow> string" where
  "Sprintf_x bs = concat (map (\<lambda>b. [hex_digit (unat b div 16), hex_digit (unat b mod 16)]) bs)"

definition ItemGUID :: "stdlib \<Rightarrow> Item \<Rightarrow> string" where
  "ItemGUID L item =
     (if GUID item \<noteq> [] then GUID item
      else let h = sha256_Sum256 L (Title item @ ''|'' @ Link item)
           in ''sha256:'' @ Sprintf_x (take 16 h))"

fun FilterItems_loop ::
  "stdlib \<Rightarrow> Item list \<Rightarrow> Filter list \<Rightarrow> MatchedItem list \<Rightarrow> MatchedItem list" where
  "FilterItems_loop L [] filters matched = matched"
| "FilterItems_loop L (item # items) filters matched =
     (let fi = \<lparr> fi_Title = Title item, fi_Description = Description item \<rparr> in
      if Match L fi filters then
        let desc = Description item;
            desc = (if length desc > 300 then take 300 desc @ ''...'' else desc)
        in FilterItems_loop L items filters
             (matched @ [\<lparr> mi_Title = Title item, mi_Description = desc,
                            mi_Link = Link item, mi_GUID = ItemGUID L item \<rparr>])
      else FilterItems_loop L items filters matched)"

definition FilterItems :: "stdlib \<Rightarrow> Item list \<Rightarrow> Filter list \<Rightarrow> MatchedItem list" where
  "FilterItems L items filters = FilterItems_loop L items filters []"

text \<open>The identity derivation as the specification words it.\<close>

definition guid_spec :: "stdlib \<Rightarrow> string \<Rightarrow> string \<Rightarrow> string \<Rightarrow> string" where
  "guid_spec L rawGuid title link =
     (if rawGuid \<noteq> [] then rawGuid
      else ''sha256:'' @ take 32 (Sprintf_x (sha256_Sum256 L (title @ ''|'' @ link))))"

section \<open>The SQLite store (package storage, migrations/00001_init.sql)\<close>

text \<open>
  The tables of the schema, each a list of rows. \<open>db_error q\<close> is the error with which
  the database driver answers the statement \<open>q\<close>, if it does.
\<close>

record feeds_row =
  feeds_id :: int
  feeds_chat_id :: int
  feeds_name :: string
  feeds_url :: string
  feeds_interval_minutes :: int
  feeds_is_active :: int
  feeds_last_check_at :: "Seconds option"
  feeds_created_at :: Seconds

record filters_row =
  filters_id :: int
  filters_feed_id :: int
  filters_kind :: string
  filters_scope :: string
  filters_value :: string
  filters_created_at :: Seconds

record seen_items_row =
  seen_feed_id :: int
  seen_guid :: string
  seen_at :: Seconds

datatype statement =
    QListDueFeeds
  | QUpdateFeed int
  | QListFilters int
  | QMarkSeen int string
  | QIsSeen int string

record SQLite =
  tbl_feeds :: "feeds_row list"
  tbl_filters :: "filters_row list"
  tbl_seen_items :: "seen_items_row list"
  db_error :: "statement \<Rightarrow> string option"

text \<open>
  \<open>t.UTC().Format(timeLayout)\<close> drops the fraction of a second;
  \<open>time.Parse(timeLayout, s)\<close> reads the text back.
\<close>

definition Format_timeLayout :: "Time \<Rightarrow> Seconds" where
  "Format_timeLayout t = t div 1000000000"

definition Parse_timeLayout :: "Seconds \<Rightarrow> Time" where
  "Parse_timeLayout s = s * 1000000000"

subsection \<open>The SQL the statements use\<close>

text \<open>
  SQLite's \<open>datetime\<close> yields NULL unless its argument is a date of the years 0000 to
  9999 (from \<open>0000-01-01 00:00:00\<close>, second \<open>-62167219200\<close>, to \<open>9999-12-31 23:59:59\<close>,
  second \<open>253402300799\<close>), unless the modifier is well formed (\<open>'+' || n || ' minutes'\<close>
  is not for a negative \<open>n\<close>, where it reads \<open>+-n minutes\<close>), and unless the result is
  no later than the last of those seconds. On non-NULL results the comparison of the
  resulting texts is the comparison of the instants. A comparison with NULL is NULL,
  and a row is selected when the \<open>WHERE\<close> clause is true.
\<close>

definition datetime :: "Seconds \<Rightarrow> Seconds option" where
  "datetime t = (if -62167219200 \<le> t \<and> t \<le> 253402300799 then Some t else None)"

definition datetime_plus_minutes :: "Seconds \<Rightarrow> int \<Rightarrow> Seconds option" where
  "datetime_plus_minutes t n =
     (if n < 0 then None
      else case datetime t of
             None \<Rightarrow> None
           | Some t' \<Rightarrow> if t' + n * 60 \<le> 253402300799 then Some (t' + n * 60) else None)"

fun sql_le :: "Seconds option \<Rightarrow> Seconds option \<Rightarrow> bool option" where
  "sql_le (Some a) (Some b) = Some (a \<le> b)"
| "sql_le a b = None"

fun sql_or :: "bool option \<Rightarrow> bool option \<Rightarrow> bool option" where
  "sql_or (Some True) b = Some True"
| "sql_or a (Some True) = Some True"
| "sql_or (Some False) (Some False) = Some False"
| "sql_or a b = None"

fun sql_and :: "bool option \<Rightarrow> bool option \<Rightarrow> bool option" where
  "sql_and (Some False) b = Some False"
| "sql_and a (Some False) = Some False"
| "sql_and (Some True) (Some True) = Some True"
| "sql_and a b = None"

text \<open>The \<open>WHERE\<close> clause of \<open>ListDueFeeds\<close>, with the bound parameter \<open>now\<close>.\<close>

definition due_where :: "Seconds \<Rightarrow> feeds_row \<Rightarrow> bool option" where
  "due_where now r =
     sql_and (Some (feeds_is_active r = 1))
       (sql_or (Some (feeds_last_check_at r = None))
          (sql_le
             (case feeds_last_check_at r of
                None \<Rightarrow> None
              | Some t \<Rightarrow> datetime_plus_minutes t (feeds_interval_minutes r))
             (datetime now)))"

datatype on_conflict = Abort | Ignore

text \<open>
  \<open>INSERT\<close> into \<open>seen_items\<close>, whose primary key is \<open>(feed_id, guid)\<close>: a row whose key
  is present is refused, or skipped under \<open>OR IGNORE\<close>.
\<close>

definition insert_seen_items ::
  "on_conflict \<Rightarrow> seen_items_row \<Rightarrow> seen_items_row list \<Rightarrow> string + seen_items_row list" where
  "insert_seen_items c row rows =
     (if list_ex (\<lambda>r. seen_feed_id r = seen_feed_id row \<and> seen_guid r = seen_guid row) rows
      then (case c of
              Ignore \<Rightarrow> Inr rows
            | Abort \<Rightarrow> Inl ''UNIQUE constraint failed: seen_items.feed_id, seen_items.guid'')
      else Inr (rows @ [row]))"

subsection \<open>The methods of the store\<close>

definition boolToInt :: "bool \<Rightarrow> int" where
  "boolToInt b = (if b then 1 else 0)"

definition scanFeed :: "feeds_row \<Rightarrow> Feed" where
  "scanFeed r =
     \<lparr> ID = feeds_id r, ChatID = feeds_chat_id r, Name = feeds_name r, URL = feeds_url r,
       IntervalMinutes = feeds_interval_minutes r, IsActive = (feeds_is_active r = 1),
       LastCheckAt = map_option Parse_timeLayout (feeds_last_check_at r),
       CreatedAt = Parse_timeLayout (feeds_created_at r) \<rparr>"

definition scanFilter :: "filters_row \<Rightarrow> Filter" where
  "scanFilter r =
     \<lparr> filter_ID = filters_id r, filter_FeedID = filters_feed_id r, Kind = filters_kind r,
       Scope = filters_scope r, Value = filters_value r,
       filter_CreatedAt = Parse_timeLayout (filters_created_at r) \<rparr>"

text \<open>\<open>ListDueFeeds\<close>; \<open>now_t\<close> is what \<open>time.Now()\<close> returns.\<close>

definition ListDueFeeds :: "SQLite \<Rightarrow> Time \<Rightarrow> string + Feed list" where
  "ListDueFeeds db now_t =
     (let now = Format_timeLayout now_t in
      case db_error db QListDueFeeds of
        Some e \<Rightarrow> Inl (''query due feeds: '' @ e)
      | None \<Rightarrow> Inr (map scanFeed (filter (\<lambda>r. due_where now r = Some True) (tbl_feeds db))))"

definition UpdateFeed :: "SQLite \<Rightarrow> Feed \<Rightarrow> string + SQLite" where
  "UpdateFeed db feed =
     (let lastCheck = map_option Format_timeLayout (LastCheckAt feed) in
      case db_error db (QUpdateFeed (ID feed)) of
        Some e \<Rightarrow> Inl (''update feed: '' @ e)
      | None \<Rightarrow>
          Inr (db\<lparr> tbl_feeds :=
                 map (\<lambda>r. if feeds_id r = ID feed
                          then r\<lparr> feeds_name := Name feed, feeds_url := URL feed,
                                  feeds_interval_minutes := IntervalMinutes feed,
                                  feeds_is_active := boolToInt (IsActive feed),
                                  feeds_last_check_at := lastCheck \<rparr>
                          else r) (tbl_feeds db) \<rparr>))"

definition ListFilters :: "SQLite \<Rightarrow> int \<Rightarrow> string + Filter list" where
  "ListFilters db feedID =
     (case db_error db (QListFilters feedID) of
        Some e \<Rightarrow> Inl (''query filters: '' @ e)
      | None \<Rightarrow>
          Inr (map scanFilter
                 (sort_key filters_id (filter (\<lambda>r. filters_feed_id r = feedID) (tbl_filters db)))))"

text \<open>
  \<open>MarkSeen\<close>; the column \<open>seen_at\<close> takes its default, the second \<open>now\<close> of the
  database's clock.
\<close>

definition MarkSeen :: "SQLite \<Rightarrow> Seconds \<Rightarrow> int \<Rightarrow> string \<Rightarrow> string + SQLite" where
  "MarkSeen db now feedID guid' =
     (case db_error db (QMarkSeen feedID guid') of
        Some e \<Rightarrow> Inl (''mark seen: '' @ e)
      | None \<Rightarrow>
          (case insert_seen_items Ignore
                  \<lparr> seen_feed_id = feedID, seen_guid = guid', seen_at = now \<rparr> (tbl_seen_items db) of
             Inl e \<Rightarrow> Inl (''mark seen: '' @ e)
           | Inr rows \<Rightarrow> Inr (db\<lparr> tbl_seen_items := rows \<rparr>)))"

definition IsSeen :: "SQLite \<Rightarrow> int \<Rightarrow> string \<Rightarrow> string + bool" where
  "IsSeen db feedID guid' =
     (case db_error db (QIsSeen feedID guid') of
        Some e \<Rightarrow> Inl (''check seen: '' @ e)
      | None \<Rightarrow>
          (let count = length (filter (\<lambda>r. seen_feed_id r = feedID \<and> seen_guid r = guid')
                                 (tbl_seen_items db))
           in Inr (count > 0)))"

text \<open>The seen-set: the keys of the rows of \<open>seen_items\<close>.\<close>

definition seen_set :: "SQLite \<Rightarrow> (int \<times> string) set" where
  "seen_set db = set (map (\<lambda>r. (seen_feed_id r, seen_guid r)) (tbl_seen_items db))"

text \<open>The due predicate as the specification words it, on a feed and the second \<open>now\<close>.\<close>

definition due_spec :: "Seconds \<Rightarrow> Feed \<Rightarrow> bool" where
  "due_spec now f \<longleftrightarrow>
     IsActive f = True
     \<and> (LastCheckAt f = None
        \<or> (case LastCheckAt f of
             None \<Rightarrow> False
           | Some t \<Rightarrow> Format_timeLayout t + IntervalMinutes f * 60 \<le> now))"

section \<open>Notification text (internal/bot/format.go)\<close>

definition FormatNotification :: "string \<Rightarrow> MatchedItem \<Rightarrow> string" where
  "FormatNotification feedName item =
     ''['' @ feedName @ '']'' @ [CHR 0x0A, CHR 0x0A] @ mi_Title item
     @ (if mi_Description item \<noteq> [] then [CHR 0x0A, CHR 0x0A] @ mi_Description item else [])
     @ (if mi_Link item \<noteq> [] then [CHR 0x0A, CHR 0x0A] @ mi_Link item else [])"

section \<open>The scheduler (internal/scheduler/scheduler.go)\<close>

text \<open>
  The scheduler works on the store, on the sender, whose effect is the list of the
  messages handed to it, and on the clock that \<open>time.Now()\<close> reads and \<open>time.Sleep\<close>
  advances. Log output is not part of the state. Outside it are the HTTP side of the
  fetcher, the library, and the context: \<open>ctx_done t\<close> tells whether the context is
  cancelled at the instant \<open>t\<close>.
\<close>

record sentMessage =
  msg_ChatID :: int
  msg_Text :: string

record State =
  store :: SQLite
  sent :: "sentMessage list"
  clock :: Time

record World =
  http :: HTTPenv
  lib :: stdlib
  ctx_done :: "Time \<Rightarrow> bool"

definition Millisecond :: int where "Millisecond = 1000000"

definition updateLastCheck :: "Feed \<Rightarrow> State \<Rightarrow> State" where
  "updateLastCheck feed s =
     (let now = clock s;
          feed' = feed\<lparr> LastCheckAt := Some now \<rparr>
      in case UpdateFeed (store s) feed' of
           Inl e \<Rightarrow> s
         | Inr db \<Rightarrow> s\<lparr> store := db \<rparr>)"

text \<open>The loop of \<open>processFeed\<close> over the matched items.\<close>

fun deliver_loop :: "Feed \<Rightarrow> MatchedItem list \<Rightarrow> State \<Rightarrow> State" where
  "deliver_loop feed [] s = s"
| "deliver_loop feed (item # rest) s =
     (case IsSeen (store s) (ID feed) (mi_GUID item) of
        Inl e \<Rightarrow> deliver_loop feed rest s
      | Inr seen \<Rightarrow>
          if seen then deliver_loop feed rest s
          else
            let msg = FormatNotification (Name feed) item;
                s1 = s\<lparr> sent := sent s @ [\<lparr> msg_ChatID = ChatID feed, msg_Text = msg \<rparr>] \<rparr>;
                s2 = (case MarkSeen (store s1) (Format_timeLayout (clock s1)) (ID feed)
                             (mi_GUID item) of
                        Inl e \<Rightarrow> s1
                      | Inr db \<Rightarrow> s1\<lparr> store := db \<rparr>);
                s3 = s2\<lparr> clock := clock s2 + 50 * Millisecond \<rparr>
            in deliver_loop feed rest s3)"

definition processFeed :: "World \<Rightarrow> Feed \<Rightarrow> State \<Rightarrow> State" where
  "processFeed W feed s =
     (case Fetch (http W) (URL feed) of
        Inl e \<Rightarrow> updateLastCheck feed s
      | Inr rssFeed \<Rightarrow>
          (case ListFilters (store s) (ID feed) of
             Inl e \<Rightarrow> s
           | Inr filters \<Rightarrow>
               let matched = FilterItems (lib W) (Items rssFeed) filters;
                   s1 = deliver_loop feed matched s
               in updateLastCheck feed s1))"

fun checkAll_loop :: "World \<Rightarrow> Feed list \<Rightarrow> State \<Rightarrow> State" where
  "checkAll_loop W [] s = s"
| "checkAll_loop W (feed # feeds) s =
     (if ctx_done W (clock s) then s
      else checkAll_loop W feeds (processFeed W feed s))"

definition checkAll :: "World \<Rightarrow> State \<Rightarrow> State" where
  "checkAll W s =
     (case ListDueFeeds (store s) (clock s) of
        Inl e \<Rightarrow> s
      | Inr feeds \<Rightarrow> checkAll_loop W feeds s)"

section \<open>Concrete inputs\<close>

text \<open>
  Inputs on which the definitions are evaluated below. First an instance of the library
  interface: case folding of the ASCII letters, a pattern language of literal text only (a pattern
  with any character other than a letter, a digit or a space after the \<open>(?i)\<close> flag is
  reported as not compiling), and a digest of 32 zero bytes. Then an item, filters, a
  parsed feed, an HTTP side that answers every request with a given status and body, a
  store of four feeds, and states of the scheduler on it.
\<close>

definition ascii_lower :: "char \<Rightarrow> char" where
  "ascii_lower c =
     (let n = (of_char c :: nat) in if 65 \<le> n \<and> n \<le> 90 then char_of (n + 32) else c)"

definition literal_char :: "char \<Rightarrow> bool" where
  "literal_char c =
     (let n = (of_char c :: nat) in
      (48 \<le> n \<and> n \<le> 57) \<or> (65 \<le> n \<and> n \<le> 90) \<or> (97 \<le> n \<and> n \<le> 122) \<or> n = 32)"

definition literal_Compile :: "string \<Rightarrow> (string \<Rightarrow> bool) option" where
  "literal_Compile p =
     (if take 4 p = ''(?i)'' \<and> list_all literal_char (drop 4 p)
      then Some (\<lambda>text. Contains (map ascii_lower text) (map ascii_lower (drop 4 p)))
      else None)"

definition ascii_lib :: stdlib where
  "ascii_lib = \<lparr> ToLower = map ascii_lower, regexp_Compile = literal_Compile,
                 sha256_Sum256 = (\<lambda>s. replicate 32 0) \<rparr>"

definition mk_filter :: "FilterKind \<Rightarrow> FilterScope \<Rightarrow> string \<Rightarrow> Filter" where
  "mk_filter k sc v =
     \<lparr> filter_ID = 0, filter_FeedID = 1, Kind = k, Scope = sc, Value = v,
       filter_CreatedAt = 0 \<rparr>"

definition demo_item :: FeedItem where
  "demo_item = \<lparr> fi_Title = ''Kubernetes Course'', fi_Description = ''K8s training'' \<rparr>"

definition demo_include :: Filter where
  "demo_include = mk_filter FilterInclude ScopeAll ''kubernetes''"

definition demo_exclude :: Filter where
  "demo_exclude = mk_filter FilterExcludeRe ScopeTitle ''course''"

definition bad_include_re :: Filter where
  "bad_include_re = mk_filter FilterIncludeRe ScopeAll ''[invalid''"

definition bad_exclude_re :: Filter where
  "bad_exclude_re = mk_filter FilterExcludeRe ScopeAll ''*bad''"

definition odd_kind :: Filter where
  "odd_kind = mk_filter ''require'' ScopeAll ''kubernetes''"

definition demo_rss :: gofeed_Feed where
  "demo_rss =
     \<lparr> gf_Title = ''DevOps Weekly'',
       Items = [\<lparr> Title = ''Kubernetes 1.32 Released'', Description = ''Sidecar containers'',
                  Link = ''https://example.com/k8s'', GUID = ''abc-123'' \<rparr>,
                \<lparr> Title = ''Post Without GUID'', Description = replicate 301 (CHR ''x''),
                  Link = ''https://example.com/post-1'', GUID = [] \<rparr>] \<rparr>"

definition demo_http :: "int \<Rightarrow> string \<Rightarrow> HTTPenv" where
  "demo_http status body =
     \<lparr> NewRequest_err = (\<lambda>u. None),
       Do = (\<lambda>req. Inr \<lparr> StatusCode = status, Body = body, Body_err = None \<rparr>),
       ParseString = (\<lambda>b. if take 4 b = ''<rss'' then Inr demo_rss
                           else Inl ''Failed to detect feed type'') \<rparr>"

definition demo_with_guid :: Item where
  "demo_with_guid = Items demo_rss ! 0"

definition demo_without_guid :: Item where
  "demo_without_guid = Items demo_rss ! 1"

definition demo_url :: string where
  "demo_url = ''https://example.com/rss''"

definition demo_request :: Request where
  "demo_request = \<lparr> Method = ''GET'', req_URL = demo_url,
                     Header = [(''User-Agent'', ''RSSNotifyBot/1.0'')] \<rparr>"

definition demo_now :: Time where
  "demo_now = 1767225600500000000"

definition mk_feed_row :: "int \<Rightarrow> string \<Rightarrow> int \<Rightarrow> int \<Rightarrow> Seconds option \<Rightarrow> feeds_row" where
  "mk_feed_row i n m a lc =
     \<lparr> feeds_id = i, feeds_chat_id = 100, feeds_name = n, feeds_url = demo_url,
       feeds_interval_minutes = m, feeds_is_active = a, feeds_last_check_at = lc,
       feeds_created_at = 1767139200 \<rparr>"

definition demo_db :: SQLite where
  "demo_db =
     \<lparr> tbl_feeds = [mk_feed_row 1 ''A'' 15 1 None,
                    mk_feed_row 2 ''B'' 15 1 (Some (1767225600 - 30 * 60)),
                    mk_feed_row 3 ''C'' 15 1 (Some (1767225600 - 2 * 60)),
                    mk_feed_row 4 ''D'' 15 0 None],
       tbl_filters = [],
       tbl_seen_items = [\<lparr> seen_feed_id = 1, seen_guid = ''guid-0'', seen_at = 1767139200 \<rparr>],
       db_error = (\<lambda>q. None) \<rparr>"

definition demo_world :: "int \<Rightarrow> string \<Rightarrow> World" where
  "demo_world status body =
     \<lparr> http = demo_http status body, lib = ascii_lib, ctx_done = (\<lambda>t. False) \<rparr>"

definition demo_state :: State where
  "demo_state = \<lparr> store = demo_db, sent = [], clock = demo_now \<rparr>"


definition demo_feed :: Feed where
  "demo_feed = scanFeed (mk_feed_row 1 ''A'' 15 1 None)"

section \<open>Properties of the matching engine\<close>

lemma Match_loop_law:
  "Match_loop L item fs h a \<longleftrightarrow>
     (\<not> list_ex (\<lambda>f. is_exclude f \<and> matchesFilter L item f) fs)
     \<and> ((\<not> h \<and> list_all (\<lambda>f. \<not> is_include f) fs)
        \<or> a \<or> list_ex (\<lambda>f. is_include f \<and> matchesFilter L item f) fs)"
proof (induction fs arbitrary: h a)
  case Nil
  show ?case by simp
next
  case (Cons f fs)
  have kinds: "\<not> (is_include f \<and> is_exclude f)"
    by (auto simp: is_include_def is_exclude_def FilterInclude_def FilterExclude_def
        FilterIncludeRe_def FilterExcludeRe_def)
  show ?case
  proof (cases "is_include f")
    case True
    with kinds have ne: "\<not> is_exclude f" by simp
    from True ne show ?thesis
      using Cons.IH [of True "if matchesFilter L item f then True else a"]
      by (auto simp: is_include_def is_exclude_def)
  next
    case False
    show ?thesis
    proof (cases "is_exclude f")
      case True
      with False show ?thesis
        using Cons.IH [of h a] by (auto simp: is_include_def is_exclude_def)
    next
      case ne: False
      with False show ?thesis
        using Cons.IH [of h a] by (auto simp: is_include_def is_exclude_def)
    qed
  qed
qed

lemma Match_law:
  "Match L item filters \<longleftrightarrow>
     noIncludesOrAnyIncludeMatches L item filters \<and> noExcludeMatches L item filters"
  by (cases filters)
     (auto simp: Match_def Match_loop_law noIncludesOrAnyIncludeMatches_def
        noExcludeMatches_def simp del: Match_loop.simps)

text \<open>
  Claim C1. For every item and every filter set, \<open>Match\<close> returns true if and only if
  there are no include filters or at least one include filter matches the item's scoped
  text, and no exclude filter matches the item's scoped text. In particular an item that
  matches both an include and an exclude filter of the set is rejected, and the empty
  filter set passes every item.
\<close>

theorem Match_composition_law:
  "(Match L item filters \<longleftrightarrow>
      noIncludesOrAnyIncludeMatches L item filters \<and> noExcludeMatches L item filters)
   \<and> (inc \<in> set filters \<and> is_include inc \<and> matchesFilter L item inc \<and>
       exc \<in> set filters \<and> is_exclude exc \<and> matchesFilter L item exc
       \<longrightarrow> \<not> Match L item filters)
   \<and> Match L item []"
proof (intro conjI impI)
  show "Match L item filters \<longleftrightarrow>
      noIncludesOrAnyIncludeMatches L item filters \<and> noExcludeMatches L item filters"
    by (rule Match_law)
next
  assume "inc \<in> set filters \<and> is_include inc \<and> matchesFilter L item inc \<and>
       exc \<in> set filters \<and> is_exclude exc \<and> matchesFilter L item exc"
  then have "list_ex (\<lambda>f. is_exclude f \<and> matchesFilter L item f) filters"
    by (auto simp: list_ex_iff)
  then show "\<not> Match L item filters"
    by (simp add: Match_law noExcludeMatches_def)
next
  show "Match L item []" by (simp add: Match_def)
qed

theorem Match_composition_law_witness:
  "demo_include \<in> set [demo_include, demo_exclude] \<and> is_include demo_include
   \<and> matchesFilter ascii_lib demo_item demo_include
   \<and> demo_exclude \<in> set [demo_include, demo_exclude] \<and> is_exclude demo_exclude
   \<and> matchesFilter ascii_lib demo_item demo_exclude
   \<and> \<not> Match ascii_lib demo_item [demo_include, demo_exclude]
   \<and> noIncludesOrAnyIncludeMatches ascii_lib demo_item [demo_include, demo_exclude]
   \<and> \<not> noExcludeMatches ascii_lib demo_item [demo_include, demo_exclude]"
proof -
  have h: "demo_include \<in> set [demo_include, demo_exclude] \<and> is_include demo_include
   \<and> matchesFilter ascii_lib demo_item demo_include
   \<and> demo_exclude \<in> set [demo_include, demo_exclude] \<and> is_exclude demo_exclude
   \<and> matchesFilter ascii_lib demo_item demo_exclude"
    by code_simp
  have i: "noIncludesOrAnyIncludeMatches ascii_lib demo_item [demo_include, demo_exclude]"
    by code_simp
  from h i Match_composition_law [of ascii_lib demo_item "[demo_include, demo_exclude]"
      demo_include demo_exclude]
  show ?thesis by blast
qed

lemma is_include_known: "is_include f \<Longrightarrow> known_kind f"
  by (auto simp: is_include_def known_kind_def)

lemma is_exclude_known: "is_exclude f \<Longrightarrow> known_kind f"
  by (auto simp: is_exclude_def known_kind_def)

lemma matchesFilter_known: "matchesFilter L item f \<Longrightarrow> known_kind f"
  by (auto simp: matchesFilter_def known_kind_def Let_def split: if_splits)

text \<open>
  Claim C10. A filter whose kind is none of \<open>include\<close>, \<open>exclude\<close>, \<open>include_re\<close>,
  \<open>exclude_re\<close> has no effect on the result: \<open>Match\<close> on a filter set equals \<open>Match\<close> on
  the set with every such filter removed, and such a filter counts neither as an include
  nor as an exclude, matches nothing, and can be dropped from any position.
\<close>

theorem unknown_kind_no_effect:
  "Match L item filters = Match L item (filter known_kind filters)
   \<and> (\<not> known_kind f \<longrightarrow>
        \<not> is_include f \<and> \<not> is_exclude f \<and> \<not> matchesFilter L item f
        \<and> Match L item (fs1 @ f # fs2) = Match L item (fs1 @ fs2))"
proof (intro conjI impI)
  show "Match L item filters = Match L item (filter known_kind filters)"
    unfolding Match_law noIncludesOrAnyIncludeMatches_def noExcludeMatches_def
    by (auto simp: list_ex_iff list_all_iff dest: is_include_known is_exclude_known)
next
  assume u: "\<not> known_kind f"
  then show "\<not> is_include f" "\<not> is_exclude f" "\<not> matchesFilter L item f"
    using is_include_known is_exclude_known matchesFilter_known by blast+
  then show "Match L item (fs1 @ f # fs2) = Match L item (fs1 @ fs2)"
    unfolding Match_law noIncludesOrAnyIncludeMatches_def noExcludeMatches_def
    by (auto simp: list_ex_iff list_all_iff)
qed

theorem unknown_kind_no_effect_witness:
  "\<not> known_kind odd_kind
   \<and> \<not> is_include odd_kind \<and> \<not> is_exclude odd_kind
   \<and> \<not> matchesFilter ascii_lib demo_item odd_kind
   \<and> Match ascii_lib demo_item ([demo_include] @ odd_kind # [demo_exclude])
       = Match ascii_lib demo_item ([demo_include] @ [demo_exclude])
   \<and> Match ascii_lib demo_item [odd_kind, demo_include, odd_kind]
       = Match ascii_lib demo_item (filter known_kind [odd_kind, demo_include, odd_kind])"
proof -
  have h: "\<not> known_kind odd_kind" by code_simp
  from h
    unknown_kind_no_effect [of ascii_lib demo_item "[odd_kind, demo_include, odd_kind]"
      odd_kind "[demo_include]" "[demo_exclude]"]
  show ?thesis by blast
qed

text \<open>
  Claim C5. A regex filter whose pattern does not compile in case-insensitive mode never
  matches, and no error arises: as an include filter it never lets an item pass (an item
  that passes a set with it has another include filter that matches it), and as an
  exclude filter it never vetoes (the result is that of the set without it).
\<close>

theorem invalid_regex_fails_closed:
  assumes bad: "regexp_Compile L (''(?i)'' @ Value f) = None"
  shows "(Kind f = FilterIncludeRe \<longrightarrow>
            \<not> matchesFilter L item f
            \<and> (Match L item (fs1 @ f # fs2) \<longrightarrow>
                 list_ex (\<lambda>g. is_include g \<and> matchesFilter L item g) (fs1 @ fs2)))
       \<and> (Kind f = FilterExcludeRe \<longrightarrow>
            \<not> matchesFilter L item f
            \<and> Match L item (fs1 @ f # fs2) = Match L item (fs1 @ fs2))"
proof (intro conjI impI)
  assume k: "Kind f = FilterIncludeRe"
  with bad show nm: "\<not> matchesFilter L item f"
    by (simp add: matchesFilter_def Let_def FilterInclude_def FilterExclude_def FilterIncludeRe_def)
  assume "Match L item (fs1 @ f # fs2)"
  with k nm show "list_ex (\<lambda>g. is_include g \<and> matchesFilter L item g) (fs1 @ fs2)"
    unfolding Match_law noIncludesOrAnyIncludeMatches_def noExcludeMatches_def
    by (auto simp: list_ex_iff list_all_iff is_include_def)
next
  assume k: "Kind f = FilterExcludeRe"
  with bad show nm: "\<not> matchesFilter L item f"
    by (simp add: matchesFilter_def Let_def FilterInclude_def FilterExclude_def FilterExcludeRe_def)
  from k have "\<not> is_include f"
    by (simp add: is_include_def FilterInclude_def FilterIncludeRe_def FilterExcludeRe_def)
  with nm show "Match L item (fs1 @ f # fs2) = Match L item (fs1 @ fs2)"
    unfolding Match_law noIncludesOrAnyIncludeMatches_def noExcludeMatches_def
    by (auto simp: list_ex_iff list_all_iff)
qed

theorem invalid_regex_fails_closed_witness:
  "regexp_Compile ascii_lib (''(?i)'' @ Value bad_include_re) = None
   \<and> Kind bad_include_re = FilterIncludeRe
   \<and> \<not> matchesFilter ascii_lib demo_item bad_include_re
   \<and> Match ascii_lib demo_item ([demo_include] @ bad_include_re # [])
   \<and> list_ex (\<lambda>g. is_include g \<and> matchesFilter ascii_lib demo_item g) ([demo_include] @ [])
   \<and> \<not> Match ascii_lib demo_item [bad_include_re]
   \<and> regexp_Compile ascii_lib (''(?i)'' @ Value bad_exclude_re) = None
   \<and> Kind bad_exclude_re = FilterExcludeRe
   \<and> \<not> matchesFilter ascii_lib demo_item bad_exclude_re
   \<and> Match ascii_lib demo_item ([demo_include] @ bad_exclude_re # [])"
proof -
  have c1: "regexp_Compile ascii_lib (''(?i)'' @ Value bad_include_re) = None" by code_simp
  have k1: "Kind bad_include_re = FilterIncludeRe" by code_simp
  have m1: "Match ascii_lib demo_item ([demo_include] @ bad_include_re # [])" by code_simp
  have n1: "\<not> Match ascii_lib demo_item [bad_include_re]" by code_simp
  have c2: "regexp_Compile ascii_lib (''(?i)'' @ Value bad_exclude_re) = None" by code_simp
  have k2: "Kind bad_exclude_re = FilterExcludeRe" by code_simp
  have m2: "Match ascii_lib demo_item ([demo_include] @ [])" by code_simp
  from k1 m1 n1 k2 m2
    invalid_regex_fails_closed [OF c1, of demo_item "[demo_include]" "[]"]
    invalid_regex_fails_closed [OF c2, of demo_item "[demo_include]" "[]"]
  show ?thesis using c1 c2 by blast
qed

section \<open>Properties of the fetcher\<close>

lemma length_Sprintf_x: "length (Sprintf_x bs) = 2 * length bs"
  by (induction bs) (simp_all add: Sprintf_x_def)

lemma take_Sprintf_x: "take (2 * n) (Sprintf_x bs) = Sprintf_x (take n bs)"
proof (induction bs arbitrary: n)
  case Nil
  show ?case by (simp add: Sprintf_x_def)
next
  case (Cons b bs)
  show ?case
  proof (cases n)
    case 0
    then show ?thesis by (simp add: Sprintf_x_def)
  next
    case (Suc m)
    with Cons.IH [of m] show ?thesis by (simp add: Sprintf_x_def)
  qed
qed

lemma hex_digit_lower: "n < 16 \<Longrightarrow> hex_digit n \<in> set ''0123456789abcdef''"
  unfolding hex_digit_def by (rule nth_mem) simp

lemma set_Sprintf_x: "set (Sprintf_x bs) \<subseteq> set ''0123456789abcdef''"
proof -
  have "hex_digit (unat b div 16) \<in> set ''0123456789abcdef''
      \<and> hex_digit (unat b mod 16) \<in> set ''0123456789abcdef''" for b :: "8 word"
  proof -
    have "unat b < 256" using unsigned_less [of b] by simp
    then have "unat b div 16 < 16" "unat b mod 16 < 16" by simp_all
    then show ?thesis by (simp only: hex_digit_lower)
  qed
  then show ?thesis unfolding Sprintf_x_def by (induction bs) auto
qed

text \<open>
  Claim C4. The derived GUID of an item is its raw identifier, verbatim, when that is
  not empty; otherwise it is \<open>sha256:\<close> followed by the lowercase hexadecimal encoding of
  the first 16 bytes of the SHA-256 digest of title, \<open>|\<close> and link, which is 32
  hexadecimal characters and is the first 32 characters of the encoding of the whole
  digest. The digest function is a parameter; its result has the 32 bytes of Go's
  \<open>[32]byte\<close>.
\<close>

theorem ItemGUID_derivation:
  assumes len: "length (sha256_Sum256 L (Title item @ ''|'' @ Link item)) = 32"
  shows "ItemGUID L item = guid_spec L (GUID item) (Title item) (Link item)
       \<and> (GUID item \<noteq> [] \<longrightarrow> ItemGUID L item = GUID item)
       \<and> (GUID item = [] \<longrightarrow>
            ItemGUID L item
              = ''sha256:'' @ Sprintf_x (take 16 (sha256_Sum256 L (Title item @ ''|'' @ Link item)))
            \<and> length (Sprintf_x (take 16 (sha256_Sum256 L (Title item @ ''|'' @ Link item)))) = 32
            \<and> set (Sprintf_x (take 16 (sha256_Sum256 L (Title item @ ''|'' @ Link item))))
                \<subseteq> set ''0123456789abcdef'')"
proof -
  let ?h = "sha256_Sum256 L (Title item @ ''|'' @ Link item)"
  have t: "take 32 (Sprintf_x ?h) = Sprintf_x (take 16 ?h)"
    using take_Sprintf_x [of 16 ?h] by simp
  have l: "length (Sprintf_x (take 16 ?h)) = 32"
    using len by (simp add: length_Sprintf_x)
  show ?thesis
    using t l set_Sprintf_x [of "take 16 ?h"]
    by (simp add: ItemGUID_def guid_spec_def Let_def)
qed

theorem ItemGUID_derivation_witness:
  "length (sha256_Sum256 ascii_lib (Title demo_without_guid @ ''|'' @ Link demo_without_guid)) = 32
   \<and> GUID demo_without_guid = []
   \<and> ItemGUID ascii_lib demo_without_guid = ''sha256:00000000000000000000000000000000''
   \<and> ItemGUID ascii_lib demo_without_guid
       = guid_spec ascii_lib (GUID demo_without_guid) (Title demo_without_guid)
           (Link demo_without_guid)
   \<and> length (sha256_Sum256 ascii_lib (Title demo_with_guid @ ''|'' @ Link demo_with_guid)) = 32
   \<and> GUID demo_with_guid \<noteq> []
   \<and> ItemGUID ascii_lib demo_with_guid = GUID demo_with_guid"
proof -
  have l1: "length (sha256_Sum256 ascii_lib
              (Title demo_without_guid @ ''|'' @ Link demo_without_guid)) = 32"
    by (simp add: ascii_lib_def)
  have l0: "length (sha256_Sum256 ascii_lib
              (Title demo_with_guid @ ''|'' @ Link demo_with_guid)) = 32"
    by (simp add: ascii_lib_def)
  have g1: "GUID demo_without_guid = []" by code_simp
  have g0: "GUID demo_with_guid \<noteq> []" by code_simp
  have v: "ItemGUID ascii_lib demo_without_guid = ''sha256:00000000000000000000000000000000''"
    by code_simp
  from ItemGUID_derivation [OF l1] ItemGUID_derivation [OF l0] l1 l0 g1 g0 v
  show ?thesis by blast
qed





text \<open>
  Claim C7, amended. \<open>Fetch\<close> accepts the status 200 only. For a response that the client
  returns, \<open>Fetch\<close> fails with the error \<open>unexpected status\<close> whenever the status is not
  200, hence for every status outside the 2xx range and also for the other 2xx statuses.
  For a response with status 200 it fails with the distinct error \<open>parse feed\<close> when the
  body, read up to 5 MiB, does not parse, and it succeeds with the parsed feed, which holds
  the normalised items, when the body that was read parses.
\<close>

theorem Fetch_status_and_parse:
  assumes req: "NewRequest_err W url' = None"
    and resp: "Do W \<lparr> Method = ''GET'', req_URL = url',
                       Header = [(''User-Agent'', ''RSSNotifyBot/1.0'')] \<rparr> = Inr resp"
  shows "(StatusCode resp \<noteq> 200 \<longrightarrow> Fetch W url' = Inl (UnexpectedStatus (StatusCode resp)))
       \<and> (StatusCode resp < 200 \<or> 299 < StatusCode resp \<longrightarrow>
            Fetch W url' = Inl (UnexpectedStatus (StatusCode resp)))
       \<and> (StatusCode resp = 200 \<longrightarrow>
            (\<forall>body e. ReadAll_LimitReader resp (5 * 1024 * 1024) = Inr body
                  \<and> ParseString W body = Inl e
               \<longrightarrow> Fetch W url' = Inl (ParseFeed e)
                   \<and> ParseFeed e \<noteq> UnexpectedStatus (StatusCode resp))
          \<and> (\<forall>body feed. ReadAll_LimitReader resp (5 * 1024 * 1024) = Inr body
                  \<and> ParseString W body = Inr feed
               \<longrightarrow> Fetch W url' = Inr feed))"
  using req resp by (simp add: Fetch_def StatusOK_def)

theorem Fetch_status_and_parse_witness:
  "NewRequest_err (demo_http 404 ''not found'') demo_url = None
   \<and> Do (demo_http 404 ''not found'') demo_request
       = Inr \<lparr> StatusCode = 404, Body = ''not found'', Body_err = None \<rparr>
   \<and> Fetch (demo_http 404 ''not found'') demo_url = Inl (UnexpectedStatus 404)
   \<and> Do (demo_http 200 ''not xml'') demo_request
       = Inr \<lparr> StatusCode = 200, Body = ''not xml'', Body_err = None \<rparr>
   \<and> ReadAll_LimitReader \<lparr> StatusCode = 200, Body = ''not xml'', Body_err = None \<rparr>
        (5 * 1024 * 1024) = Inr ''not xml''
   \<and> ParseString (demo_http 200 ''not xml'') ''not xml'' = Inl ''Failed to detect feed type''
   \<and> Fetch (demo_http 200 ''not xml'') demo_url = Inl (ParseFeed ''Failed to detect feed type'')
   \<and> Do (demo_http 200 ''<rss></rss>'') demo_request
       = Inr \<lparr> StatusCode = 200, Body = ''<rss></rss>'', Body_err = None \<rparr>
   \<and> ReadAll_LimitReader \<lparr> StatusCode = 200, Body = ''<rss></rss>'', Body_err = None \<rparr>
        (5 * 1024 * 1024) = Inr ''<rss></rss>''
   \<and> ParseString (demo_http 200 ''<rss></rss>'') ''<rss></rss>'' = Inr demo_rss
   \<and> Fetch (demo_http 200 ''<rss></rss>'') demo_url = Inr demo_rss"
proof -
  have n: "NewRequest_err (demo_http s b) demo_url = None" for s b
    by (simp add: demo_http_def)
  have d: "Do (demo_http s b) \<lparr> Method = ''GET'', req_URL = demo_url,
                       Header = [(''User-Agent'', ''RSSNotifyBot/1.0'')] \<rparr>
           = Inr \<lparr> StatusCode = s, Body = b, Body_err = None \<rparr>" for s b
    by (simp add: demo_http_def)
  have r1: "ReadAll_LimitReader \<lparr> StatusCode = 200, Body = ''not xml'', Body_err = None \<rparr>
        (5 * 1024 * 1024) = Inr ''not xml''"
    by (simp add: ReadAll_LimitReader_def)
  have r2: "ReadAll_LimitReader \<lparr> StatusCode = 200, Body = ''<rss></rss>'', Body_err = None \<rparr>
        (5 * 1024 * 1024) = Inr ''<rss></rss>''"
    by (simp add: ReadAll_LimitReader_def)
  have p1: "ParseString (demo_http 200 ''not xml'') ''not xml'' = Inl ''Failed to detect feed type''"
    by (simp add: demo_http_def)
  have p2: "ParseString (demo_http 200 ''<rss></rss>'') ''<rss></rss>'' = Inr demo_rss"
    by (simp add: demo_http_def)
  have s1: "StatusCode \<lparr> StatusCode = 404, Body = ''not found'', Body_err = None \<rparr> \<noteq> 200"
    by simp
  have s2: "StatusCode \<lparr> StatusCode = 200, Body = b, Body_err = None \<rparr> = 200" for b
    by simp
  note t1 = Fetch_status_and_parse [OF n d, of 404 "''not found''"]
  note t2 = Fetch_status_and_parse [OF n d, of 200 "''not xml''"]
  note t3 = Fetch_status_and_parse [OF n d, of 200 "''<rss></rss>''"]
  have f1: "Fetch (demo_http 404 ''not found'') demo_url = Inl (UnexpectedStatus 404)"
    using t1 s1 by simp
  have f2: "Fetch (demo_http 200 ''not xml'') demo_url
              = Inl (ParseFeed ''Failed to detect feed type'')"
    using t2 s2 r1 p1 by blast
  have f3: "Fetch (demo_http 200 ''<rss></rss>'') demo_url = Inr demo_rss"
    using t3 s2 r2 p2 by blast
  from n d r1 r2 p1 p2 f1 f2 f3 show ?thesis
    by (simp only: demo_request_def simp_thms)
qed

text \<open>
  As first stated, C7 let \<open>Fetch\<close> succeed on every 2xx status with a body that parses.
  A response with status 201 and such a body is refused.
\<close>

theorem Fetch_2xx_counterexample:
  "NewRequest_err (demo_http 201 ''<rss></rss>'') demo_url = None
   \<and> Do (demo_http 201 ''<rss></rss>'') demo_request
       = Inr \<lparr> StatusCode = 201, Body = ''<rss></rss>'', Body_err = None \<rparr>
   \<and> (200::int) \<le> 201 \<and> (201::int) \<le> 299
   \<and> ParseString (demo_http 201 ''<rss></rss>'') ''<rss></rss>'' = Inr demo_rss
   \<and> Fetch (demo_http 201 ''<rss></rss>'') demo_url = Inl (UnexpectedStatus 201)"
  by (simp add: Fetch_def demo_http_def demo_url_def demo_request_def StatusOK_def)

section \<open>Properties of the store\<close>

lemma Format_Parse_timeLayout: "Format_timeLayout (Parse_timeLayout t) = t"
  by (simp add: Format_timeLayout_def Parse_timeLayout_def)

lemma due_where_spec:
  assumes now: "-62167219200 \<le> now" "now \<le> 253402300799"
    and iv: "0 \<le> feeds_interval_minutes r"
    and lc: "\<And>t. feeds_last_check_at r = Some t \<Longrightarrow> -62167219200 \<le> t \<and> t \<le> 253402300799"
  shows "(due_where now r = Some True) = due_spec now (scanFeed r)"
proof (cases "feeds_last_check_at r")
  case None
  then show ?thesis
    by (cases "feeds_is_active r = 1") (simp_all add: due_where_def due_spec_def scanFeed_def)
next
  case (Some t)
  with lc have t: "-62167219200 \<le> t" "t \<le> 253402300799" by auto
  show ?thesis
  proof (cases "t + feeds_interval_minutes r * 60 \<le> 253402300799")
    case True
    with Some t now iv show ?thesis
      by (cases "feeds_is_active r = 1"; cases "t + feeds_interval_minutes r * 60 \<le> now")
         (simp_all add: due_where_def due_spec_def scanFeed_def datetime_def
            datetime_plus_minutes_def Format_Parse_timeLayout)
  next
    case False
    with now have "\<not> t + feeds_interval_minutes r * 60 \<le> now" by linarith
    with False Some t now iv show ?thesis
      by (cases "feeds_is_active r = 1")
         (simp_all add: due_where_def due_spec_def scanFeed_def datetime_def
            datetime_plus_minutes_def Format_Parse_timeLayout)
  qed
qed

text \<open>
  Claim C2. \<open>ListDueFeeds\<close> returns exactly the feeds of the table that satisfy the due
  predicate: a feed is returned if and only if it is active and either was never checked
  or its last check plus its own interval, in seconds, is no later than now, where now is
  the UTC instant of the call cut to whole seconds. The feeds are as the data model has
  them: the instants lie in the years 0000 to 9999, which the timestamp text can denote,
  and no interval is negative (the data model bounds it to 1..1440).
\<close>

theorem ListDueFeeds_due_predicate:
  assumes ok: "db_error db QListDueFeeds = None"
    and now: "-62167219200 \<le> Format_timeLayout now_t \<and> Format_timeLayout now_t \<le> 253402300799"
    and rows: "\<forall>r \<in> set (tbl_feeds db).
                 0 \<le> feeds_interval_minutes r
                 \<and> (\<forall>t. feeds_last_check_at r = Some t \<longrightarrow>
                        -62167219200 \<le> t \<and> t \<le> 253402300799)"
  shows "ListDueFeeds db now_t
           = Inr (filter (due_spec (Format_timeLayout now_t)) (map scanFeed (tbl_feeds db)))
       \<and> (\<forall>due f. ListDueFeeds db now_t = Inr due \<longrightarrow>
             (f \<in> set due \<longleftrightarrow>
                f \<in> scanFeed ` set (tbl_feeds db)
                \<and> IsActive f = True
                \<and> (LastCheckAt f = None
                    \<or> (\<exists>t. LastCheckAt f = Some t
                          \<and> Format_timeLayout t + IntervalMinutes f * 60
                              \<le> Format_timeLayout now_t))))"
proof -
  let ?now = "Format_timeLayout now_t"
  have eq: "filter (\<lambda>r. due_where ?now r = Some True) (tbl_feeds db)
              = filter (\<lambda>r. due_spec ?now (scanFeed r)) (tbl_feeds db)"
  proof (rule filter_cong [OF refl])
    fix r assume "r \<in> set (tbl_feeds db)"
    with rows have "0 \<le> feeds_interval_minutes r"
      and "\<And>t. feeds_last_check_at r = Some t \<Longrightarrow> -62167219200 \<le> t \<and> t \<le> 253402300799"
      by auto
    with now show "(due_where ?now r = Some True) = due_spec ?now (scanFeed r)"
      by (intro due_where_spec) auto
  qed
  have res: "ListDueFeeds db now_t = Inr (filter (due_spec ?now) (map scanFeed (tbl_feeds db)))"
    using ok by (simp add: ListDueFeeds_def Let_def eq filter_map comp_def)
  have spec: "due_spec ?now f \<longleftrightarrow>
      IsActive f = True
      \<and> (LastCheckAt f = None
          \<or> (\<exists>t. LastCheckAt f = Some t
                \<and> Format_timeLayout t + IntervalMinutes f * 60 \<le> ?now))" for f
    by (cases "LastCheckAt f") (simp_all add: due_spec_def)
  from res show ?thesis by (auto simp: spec)
qed

theorem ListDueFeeds_due_predicate_witness:
  "db_error demo_db QListDueFeeds = None
   \<and> -62167219200 \<le> Format_timeLayout demo_now
   \<and> Format_timeLayout demo_now \<le> 253402300799
   \<and> list_all (\<lambda>r. 0 \<le> feeds_interval_minutes r
                    \<and> (case feeds_last_check_at r of
                          None \<Rightarrow> True
                        | Some t \<Rightarrow> -62167219200 \<le> t \<and> t \<le> 253402300799))
        (tbl_feeds demo_db)
   \<and> ListDueFeeds demo_db demo_now
       = Inr (filter (due_spec (Format_timeLayout demo_now)) (map scanFeed (tbl_feeds demo_db)))
   \<and> map ID (filter (due_spec (Format_timeLayout demo_now)) (map scanFeed (tbl_feeds demo_db)))
       = [1, 2]"
proof -
  have ok: "db_error demo_db QListDueFeeds = None" by (simp add: demo_db_def)
  have now: "-62167219200 \<le> Format_timeLayout demo_now
             \<and> Format_timeLayout demo_now \<le> 253402300799"
    by (simp add: Format_timeLayout_def demo_now_def)
  have la: "list_all (\<lambda>r. 0 \<le> feeds_interval_minutes r
                    \<and> (case feeds_last_check_at r of
                          None \<Rightarrow> True
                        | Some t \<Rightarrow> -62167219200 \<le> t \<and> t \<le> 253402300799))
        (tbl_feeds demo_db)"
    by (simp add: demo_db_def mk_feed_row_def)
  then have rows: "\<forall>r \<in> set (tbl_feeds demo_db).
         0 \<le> feeds_interval_minutes r
         \<and> (\<forall>t. feeds_last_check_at r = Some t \<longrightarrow> -62167219200 \<le> t \<and> t \<le> 253402300799)"
    by (auto simp: list_all_iff)
  have ids: "map ID (filter (due_spec (Format_timeLayout demo_now))
                (map scanFeed (tbl_feeds demo_db))) = [1, 2]"
    by code_simp
  from ListDueFeeds_due_predicate [OF ok now rows]
  have res: "ListDueFeeds demo_db demo_now
       = Inr (filter (due_spec (Format_timeLayout demo_now)) (map scanFeed (tbl_feeds demo_db)))"
    by (rule conjunct1)
  from now have n1: "-62167219200 \<le> Format_timeLayout demo_now"
    and n2: "Format_timeLayout demo_now \<le> 253402300799"
    by simp_all
  show ?thesis
    by (intro conjI) (fact ok, fact n1, fact n2, fact la, fact res, fact ids)
qed

lemma insert_seen_items_Ignore:
  "\<exists>rows'. insert_seen_items Ignore \<lparr> seen_feed_id = fid, seen_guid = g, seen_at = t1 \<rparr> rows
                = Inr rows'
      \<and> insert_seen_items Ignore \<lparr> seen_feed_id = fid, seen_guid = g, seen_at = t2 \<rparr> rows'
                = Inr rows'
      \<and> set (map (\<lambda>r. (seen_feed_id r, seen_guid r)) rows')
          = insert (fid, g) (set (map (\<lambda>r. (seen_feed_id r, seen_guid r)) rows))
      \<and> filter (\<lambda>r. seen_feed_id r = fid \<and> seen_guid r = g) rows' \<noteq> []"
proof (cases "list_ex (\<lambda>r. seen_feed_id r = fid \<and> seen_guid r = g) rows")
  case True
  then obtain r where r: "r \<in> set rows" "seen_feed_id r = fid" "seen_guid r = g"
    by (auto simp: list_ex_iff)
  from r(1) have "(seen_feed_id r, seen_guid r)
      \<in> (\<lambda>r. (seen_feed_id r, seen_guid r)) ` set rows"
    by (rule imageI)
  with r have "(fid, g) \<in> set (map (\<lambda>r. (seen_feed_id r, seen_guid r)) rows)"
    by simp
  then have s: "set (map (\<lambda>r. (seen_feed_id r, seen_guid r)) rows)
      = insert (fid, g) (set (map (\<lambda>r. (seen_feed_id r, seen_guid r)) rows))"
    by (simp only: insert_absorb)
  have f: "filter (\<lambda>r. seen_feed_id r = fid \<and> seen_guid r = g) rows \<noteq> []"
    using r by (simp add: filter_empty_conv) blast
  have i1: "insert_seen_items Ignore \<lparr> seen_feed_id = fid, seen_guid = g, seen_at = t1 \<rparr> rows
              = Inr rows"
    using True by (simp add: insert_seen_items_def)
  have i2: "insert_seen_items Ignore \<lparr> seen_feed_id = fid, seen_guid = g, seen_at = t2 \<rparr> rows
              = Inr rows"
    using True by (simp add: insert_seen_items_def)
  show ?thesis
  proof (intro exI conjI)
    show "insert_seen_items Ignore \<lparr> seen_feed_id = fid, seen_guid = g, seen_at = t1 \<rparr> rows
            = Inr rows" by (fact i1)
  qed (fact i2, fact s, fact f)
next
  case False
  let ?rows = "rows @ [\<lparr> seen_feed_id = fid, seen_guid = g, seen_at = t1 \<rparr>]"
  have i1: "insert_seen_items Ignore \<lparr> seen_feed_id = fid, seen_guid = g, seen_at = t1 \<rparr> rows
              = Inr ?rows"
    using False by (simp add: insert_seen_items_def)
  have i2: "insert_seen_items Ignore \<lparr> seen_feed_id = fid, seen_guid = g, seen_at = t2 \<rparr> ?rows
              = Inr ?rows"
    by (simp add: insert_seen_items_def)
  have s: "set (map (\<lambda>r. (seen_feed_id r, seen_guid r)) ?rows)
      = insert (fid, g) (set (map (\<lambda>r. (seen_feed_id r, seen_guid r)) rows))"
    by simp
  have f: "filter (\<lambda>r. seen_feed_id r = fid \<and> seen_guid r = g) ?rows \<noteq> []"
    by simp
  show ?thesis
  proof (intro exI conjI)
    show "insert_seen_items Ignore \<lparr> seen_feed_id = fid, seen_guid = g, seen_at = t1 \<rparr> rows
            = Inr ?rows" by (fact i1)
  qed (fact i2, fact s, fact f)
qed

text \<open>
  Claim C3. For every feed identity and GUID, a first \<open>MarkSeen\<close> that the database
  accepts leaves a store on which a second \<open>MarkSeen\<close> of the same pair succeeds and
  changes nothing, whatever the times of the two calls; the seen-set is the old one with
  the pair added, and \<open>IsSeen\<close> of the pair returns true after one call and after two.
\<close>

theorem MarkSeen_idempotent:
  assumes ok: "db_error db (QMarkSeen feedID g) = None"
  shows "\<exists>db1. MarkSeen db t1 feedID g = Inr db1
           \<and> MarkSeen db1 t2 feedID g = Inr db1
           \<and> seen_set db1 = insert (feedID, g) (seen_set db)
           \<and> (db_error db (QIsSeen feedID g) = None \<longrightarrow> IsSeen db1 feedID g = Inr True)"
proof -
  from insert_seen_items_Ignore [of feedID g t1 "tbl_seen_items db" t2]
  obtain rows' where
    r1: "insert_seen_items Ignore \<lparr> seen_feed_id = feedID, seen_guid = g, seen_at = t1 \<rparr>
           (tbl_seen_items db) = Inr rows'"
    and r2: "insert_seen_items Ignore \<lparr> seen_feed_id = feedID, seen_guid = g, seen_at = t2 \<rparr>
           rows' = Inr rows'"
    and r3: "set (map (\<lambda>r. (seen_feed_id r, seen_guid r)) rows')
               = insert (feedID, g)
                   (set (map (\<lambda>r. (seen_feed_id r, seen_guid r)) (tbl_seen_items db)))"
    and r4: "filter (\<lambda>r. seen_feed_id r = feedID \<and> seen_guid r = g) rows' \<noteq> []"
    by (elim exE conjE)
  let ?db1 = "db\<lparr> tbl_seen_items := rows' \<rparr>"
  have m1: "MarkSeen db t1 feedID g = Inr ?db1"
    using ok r1 by (simp add: MarkSeen_def)
  have m2: "MarkSeen ?db1 t2 feedID g = Inr ?db1"
    using ok r2 by (simp add: MarkSeen_def)
  have m3: "seen_set ?db1 = insert (feedID, g) (seen_set db)"
    using r3 by (simp add: seen_set_def)
  have m4: "db_error db (QIsSeen feedID g) = None \<longrightarrow> IsSeen ?db1 feedID g = Inr True"
    using r4 by (simp add: IsSeen_def Let_def)
  show ?thesis
  proof (intro exI conjI)
    show "MarkSeen db t1 feedID g = Inr ?db1" by (fact m1)
  qed (fact m2, fact m3, fact m4)
qed


theorem MarkSeen_idempotent_witness:
  "db_error demo_db (QMarkSeen 1 ''guid-1'') = None
   \<and> db_error demo_db (QIsSeen 1 ''guid-1'') = None
   \<and> IsSeen demo_db 1 ''guid-1'' = Inr False
   \<and> (\<exists>db1. MarkSeen demo_db 1767225600 1 ''guid-1'' = Inr db1
          \<and> MarkSeen db1 1767225660 1 ''guid-1'' = Inr db1
          \<and> seen_set db1 = insert (1, ''guid-1'') (seen_set demo_db)
          \<and> IsSeen db1 1 ''guid-1'' = Inr True)"
proof -
  have ok: "db_error demo_db (QMarkSeen 1 ''guid-1'') = None" by (simp add: demo_db_def)
  have ok2: "db_error demo_db (QIsSeen 1 ''guid-1'') = None" by (simp add: demo_db_def)
  have ns: "IsSeen demo_db 1 ''guid-1'' = Inr False" by code_simp
  from MarkSeen_idempotent [OF ok, of 1767225600 1767225660]
  obtain db1 where m1: "MarkSeen demo_db 1767225600 1 ''guid-1'' = Inr db1"
    and m2: "MarkSeen db1 1767225660 1 ''guid-1'' = Inr db1"
    and m3: "seen_set db1 = insert (1, ''guid-1'') (seen_set demo_db)"
    and m4: "db_error demo_db (QIsSeen 1 ''guid-1'') = None \<longrightarrow> IsSeen db1 1 ''guid-1'' = Inr True"
    by (elim exE conjE)
  from m4 ok2 have m5: "IsSeen db1 1 ''guid-1'' = Inr True" by (rule mp)
  show ?thesis
  proof (intro exI conjI)
    show "MarkSeen demo_db 1767225600 1 ''guid-1'' = Inr db1" by (fact m1)
  qed (fact ok, fact ok2, fact ns, fact m2, fact m3, fact m5)
qed

section \<open>Properties of the scheduler\<close>

lemma updateLastCheck_frame:
  "sent (updateLastCheck feed s) = sent s
   \<and> clock (updateLastCheck feed s) = clock s
   \<and> tbl_seen_items (store (updateLastCheck feed s)) = tbl_seen_items (store s)
   \<and> tbl_filters (store (updateLastCheck feed s)) = tbl_filters (store s)
   \<and> db_error (store (updateLastCheck feed s)) = db_error (store s)"
  by (simp add: updateLastCheck_def UpdateFeed_def Let_def split: option.splits)

lemma updateLastCheck_feeds:
  assumes ok: "db_error (store s) (QUpdateFeed (ID feed)) = None"
  shows "tbl_feeds (store (updateLastCheck feed s))
     = map (\<lambda>x. if feeds_id x = ID feed
                then x\<lparr> feeds_name := Name feed, feeds_url := URL feed,
                        feeds_interval_minutes := IntervalMinutes feed,
                        feeds_is_active := boolToInt (IsActive feed),
                        feeds_last_check_at := Some (Format_timeLayout (clock s)) \<rparr>
                else x) (tbl_feeds (store s))"
  using ok by (simp add: updateLastCheck_def UpdateFeed_def Let_def)

lemma scanFeed_write_back:
  assumes "feeds_is_active r = 1"
  shows "r\<lparr> feeds_name := Name (scanFeed r), feeds_url := URL (scanFeed r),
           feeds_interval_minutes := IntervalMinutes (scanFeed r),
           feeds_is_active := boolToInt (IsActive (scanFeed r)),
           feeds_last_check_at := lc \<rparr>
         = r\<lparr> feeds_last_check_at := lc \<rparr>"
  using assms by (simp add: scanFeed_def boolToInt_def)

lemma distinct_ids_same_row:
  assumes "distinct (map feeds_id rows)" "x \<in> set rows" "r \<in> set rows"
    "feeds_id x = feeds_id r"
  shows "x = r"
  using assms by (meson distinct_map inj_onD)

text \<open>
  Claim C9. For a due feed, that is the scan of an active row of the table, whose fetch
  fails, whatever the error (transport, status or parsing), \<open>processFeed\<close> hands no
  message to the sender and leaves the seen-items and the filters as they were; when the
  database accepts the update, the row of the feed gets the instant of the call, cut to
  whole seconds, as its last check, and nothing else in the table of feeds changes. Rows
  have distinct identities, \<open>id\<close> being the primary key.
\<close>

theorem fetch_failure_advances_last_check:
  assumes fail: "Fetch (http W) (URL feed) = Inl e"
  shows "sent (processFeed W feed s) = sent s
       \<and> tbl_seen_items (store (processFeed W feed s)) = tbl_seen_items (store s)
       \<and> tbl_filters (store (processFeed W feed s)) = tbl_filters (store s)
       \<and> (db_error (store s) (QUpdateFeed (ID feed)) = None
            \<and> r \<in> set (tbl_feeds (store s)) \<and> feed = scanFeed r \<and> feeds_is_active r = 1
            \<and> distinct (map feeds_id (tbl_feeds (store s)))
          \<longrightarrow> tbl_feeds (store (processFeed W feed s))
                = map (\<lambda>x. if feeds_id x = ID feed
                           then x\<lparr> feeds_last_check_at := Some (Format_timeLayout (clock s)) \<rparr>
                           else x) (tbl_feeds (store s)))"
proof -
  have p: "processFeed W feed s = updateLastCheck feed s"
    using fail by (simp add: processFeed_def)
  have frame: "sent (processFeed W feed s) = sent s
       \<and> tbl_seen_items (store (processFeed W feed s)) = tbl_seen_items (store s)
       \<and> tbl_filters (store (processFeed W feed s)) = tbl_filters (store s)"
    using updateLastCheck_frame [of feed s] by (simp only: p)
  have adv: "tbl_feeds (store (processFeed W feed s))
                = map (\<lambda>x. if feeds_id x = ID feed
                           then x\<lparr> feeds_last_check_at := Some (Format_timeLayout (clock s)) \<rparr>
                           else x) (tbl_feeds (store s))"
    if ok: "db_error (store s) (QUpdateFeed (ID feed)) = None"
      and r: "r \<in> set (tbl_feeds (store s))" and f: "feed = scanFeed r"
      and act: "feeds_is_active r = 1"
      and dist: "distinct (map feeds_id (tbl_feeds (store s)))"
  proof -
    have idr: "ID feed = feeds_id r" using f by (simp add: scanFeed_def)
    have "(if feeds_id x = ID feed
           then x\<lparr> feeds_name := Name feed, feeds_url := URL feed,
                   feeds_interval_minutes := IntervalMinutes feed,
                   feeds_is_active := boolToInt (IsActive feed),
                   feeds_last_check_at := Some (Format_timeLayout (clock s)) \<rparr>
           else x)
        = (if feeds_id x = ID feed
           then x\<lparr> feeds_last_check_at := Some (Format_timeLayout (clock s)) \<rparr>
           else x)" if x: "x \<in> set (tbl_feeds (store s))" for x
    proof (cases "feeds_id x = ID feed")
      case True
      with idr have "x = r" using distinct_ids_same_row [OF dist x r] by simp
      with True show ?thesis
        using scanFeed_write_back [OF act] by (simp add: f)
    next
      case False
      then show ?thesis by simp
    qed
    then show ?thesis
      unfolding p updateLastCheck_feeds [OF ok] by (intro map_cong refl)
  qed
  from frame adv show ?thesis by blast
qed

theorem fetch_failure_advances_last_check_witness:
  "Fetch (http (demo_world 404 ''not found'')) (URL demo_feed) = Inl (UnexpectedStatus 404)
   \<and> db_error (store demo_state) (QUpdateFeed (ID demo_feed)) = None
   \<and> mk_feed_row 1 ''A'' 15 1 None \<in> set (tbl_feeds (store demo_state))
   \<and> demo_feed = scanFeed (mk_feed_row 1 ''A'' 15 1 None)
   \<and> feeds_is_active (mk_feed_row 1 ''A'' 15 1 None) = 1
   \<and> distinct (map feeds_id (tbl_feeds (store demo_state)))
   \<and> sent (processFeed (demo_world 404 ''not found'') demo_feed demo_state) = sent demo_state
   \<and> tbl_seen_items (store (processFeed (demo_world 404 ''not found'') demo_feed demo_state))
       = tbl_seen_items (store demo_state)
   \<and> tbl_feeds (store (processFeed (demo_world 404 ''not found'') demo_feed demo_state))
       = map (\<lambda>x. if feeds_id x = ID demo_feed
                  then x\<lparr> feeds_last_check_at := Some (Format_timeLayout (clock demo_state)) \<rparr>
                  else x) (tbl_feeds (store demo_state))
   \<and> Format_timeLayout (clock demo_state) = 1767225600"
proof -
  have f: "Fetch (http (demo_world 404 ''not found'')) (URL demo_feed)
             = Inl (UnexpectedStatus 404)"
    by code_simp
  have ok: "db_error (store demo_state) (QUpdateFeed (ID demo_feed)) = None"
    by (simp add: demo_state_def demo_db_def)
  have r: "mk_feed_row 1 ''A'' 15 1 None \<in> set (tbl_feeds (store demo_state))"
    by (simp add: demo_state_def demo_db_def)
  have d: "demo_feed = scanFeed (mk_feed_row 1 ''A'' 15 1 None)"
    by (simp add: demo_feed_def)
  have a: "feeds_is_active (mk_feed_row 1 ''A'' 15 1 None) = 1"
    by (simp add: mk_feed_row_def)
  have di: "distinct (map feeds_id (tbl_feeds (store demo_state)))"
    by (simp add: demo_state_def demo_db_def mk_feed_row_def)
  have t: "Format_timeLayout (clock demo_state) = 1767225600"
    by (simp add: demo_state_def demo_now_def Format_timeLayout_def)
  note inst = fetch_failure_advances_last_check [OF f, of demo_state
      "mk_feed_row 1 ''A'' 15 1 None"]
  from inst have c1: "sent (processFeed (demo_world 404 ''not found'') demo_feed demo_state)
      = sent demo_state"
    by (rule conjunct1)
  from inst have c2: "tbl_seen_items (store (processFeed (demo_world 404 ''not found'')
      demo_feed demo_state)) = tbl_seen_items (store demo_state)"
    by (elim conjE)
  from inst ok r d a di
  have c3: "tbl_feeds (store (processFeed (demo_world 404 ''not found'') demo_feed demo_state))
       = map (\<lambda>x. if feeds_id x = ID demo_feed
                  then x\<lparr> feeds_last_check_at := Some (Format_timeLayout (clock demo_state)) \<rparr>
                  else x) (tbl_feeds (store demo_state))"
    by (elim conjE impE) (intro conjI, assumption+)
  show ?thesis
    by (intro conjI) (fact f, fact ok, fact r, fact d, fact a, fact di, fact c1, fact c2,
        fact c3, fact t)
qed



end
